theory Spec2Isabelle
  imports Main "HOL-Library.Sublist"
begin

section \<open>The secret publisher \<^verbatim>\<open>set_github_secrets.py\<close>\<close>

text \<open>
  The script reads secret values from the environment and, for every secret that has a
  value, fetches the repository's public key, seals the value and uploads it. Everything
  it does beyond computing is made explicit here: the network, the random source of the
  sealed box and standard output are parts of a state that every function takes and
  returns, and every exception is a value of type \<open>fault\<close>.

  A Python \<^verbatim>\<open>str\<close> is modelled by the list of its UTF-8 bytes, so \<^verbatim>\<open>s.encode("utf-8")\<close>
  and \<^verbatim>\<open>b.decode("utf-8")\<close> are the identity and the three marks that the script prints
  are three bytes each.
\<close>

subsection \<open>Text\<close>

definition check_mark :: string where
  "check_mark = [CHR 0xE2, CHR 0x9C, CHR 0x93]"

definition cross_mark :: string where
  "cross_mark = [CHR 0xE2, CHR 0x9C, CHR 0x97]"

definition warning_mark :: string where
  "warning_mark = [CHR 0xE2, CHR 0x9A, CHR 0xA0]"

text \<open>\<^verbatim>\<open>str(n)\<close> for the integers that the f-strings format.\<close>

fun str_nat :: "nat \<Rightarrow> string" where
  "str_nat n =
     (if n < 10 then [''0123456789'' ! n]
      else str_nat (n div 10) @ [''0123456789'' ! (n mod 10)])"

declare str_nat.simps [simp del]

definition str_int :: "int \<Rightarrow> string" where
  "str_int i = (if i < 0 then CHR ''-'' # str_nat (nat (- i)) else str_nat (nat i))"

text \<open>The four f-strings of the script, and the fixed configuration message.\<close>

definition set_line :: "string \<Rightarrow> string" where
  "set_line secret_name = check_mark @ '' Set secret: '' @ secret_name"

definition failed_line :: "string \<Rightarrow> int \<Rightarrow> string \<Rightarrow> string" where
  "failed_line secret_name status body =
     cross_mark @ '' Failed to set '' @ secret_name @ '': '' @ str_int status @ '' '' @ body"

definition skipping_line :: "string \<Rightarrow> string" where
  "skipping_line name = warning_mark @ '' Skipping '' @ name @ '': not set in environment''"

definition summary_line :: "nat \<Rightarrow> nat \<Rightarrow> string" where
  "summary_line success_count n_secrets =
     CHR 0x0A # ''Set '' @ str_nat success_count @ ''/'' @ str_nat n_secrets @ '' secrets''"




subsection \<open>Values, faults and the outside world\<close>

text \<open>What \<^verbatim>\<open>response.json()\<close> returns: a decoded JSON document (numbers by their literal).\<close>

datatype json_value =
    JNull
  | JBool bool
  | JNumber string
  | JString string
  | JArray "json_value list"
  | JObject "(string \<times> json_value) list"

text \<open>
  Every way the run can stop early. \<open>SystemExit\<close> is \<^verbatim>\<open>sys.exit\<close>; \<open>KeyError\<close>,
  \<open>TypeError\<close> and \<open>AttributeError\<close> are raised by the script's own subscripts and
  method calls; the others stand for what the libraries raise.
\<close>

datatype fault =
    SystemExit int
  | KeyError string
  | TypeError
  | AttributeError
  | RequestException
  | JSONDecodeError
  | CryptoError

text \<open>
  A response, as far as the script reads it: \<^verbatim>\<open>status_code\<close>, \<^verbatim>\<open>text\<close> and the result of
  \<^verbatim>\<open>json()\<close>, which raises when the body is no JSON document. The decoding is the
  library's, so the model takes its result as given beside the body.
\<close>

record response =
  status_code :: int
  body_text :: string
  json :: "fault + json_value"

type_synonym headers = "(string \<times> string) list"

record put_json =
  encrypted_value :: string
  key_id :: json_value

text \<open>A network call that was made, with what came back.\<close>

datatype event =
    HttpGet string headers "fault + response"
  | HttpPut string headers put_json "fault + response"

text \<open>
  The libraries and the remote API are parameters. \<open>'w\<close> is the state of everything
  outside the process (the server, the random source): a call takes it and returns it
  changed, so the same request may be answered differently each time.
  \<open>PublicKey\<close> is \<^verbatim>\<open>public.PublicKey(_, encoding.Base64Encoder())\<close>, which decodes and
  checks the key; \<open>SealedBox_encrypt\<close> is \<^verbatim>\<open>public.SealedBox(key).encrypt(_)\<close>;
  \<open>load_dotenv\<close> gives the environment after the \<^verbatim>\<open>.env\<close> file has been merged in.
\<close>

record 'w externals =
  requests_get :: "'w \<Rightarrow> string \<Rightarrow> headers \<Rightarrow> (fault + response) \<times> 'w"
  requests_put :: "'w \<Rightarrow> string \<Rightarrow> headers \<Rightarrow> put_json \<Rightarrow> (fault + response) \<times> 'w"
  PublicKey :: "string \<Rightarrow> fault + string"
  SealedBox_encrypt :: "'w \<Rightarrow> string \<Rightarrow> string \<Rightarrow> (fault + string) \<times> 'w"
  b64encode :: "string \<Rightarrow> string"
  load_dotenv :: "(string \<rightharpoonup> string) \<Rightarrow> (string \<rightharpoonup> string)"

record 'w run_state =
  world :: 'w
  calls :: "event list"
  printed :: "string list"

definition print :: "string \<Rightarrow> 'w run_state \<Rightarrow> 'w run_state" where
  "print l s = s\<lparr>printed := printed s @ [l]\<rparr>"

subsection \<open>Python's own operations\<close>

text \<open>Truth of a value that is a string or \<^verbatim>\<open>None\<close>: \<^verbatim>\<open>if value:\<close>.\<close>

fun truthy :: "string option \<Rightarrow> bool" where
  "truthy None = False"
| "truthy (Some v) = (v \<noteq> [])"

text \<open>\<^verbatim>\<open>obj[k]\<close> with a string \<open>k\<close>: only a dict can be subscripted so.\<close>

fun getitem :: "json_value \<Rightarrow> string \<Rightarrow> fault + json_value" where
  "getitem (JObject items) k =
     (case map_of items k of None \<Rightarrow> Inl (KeyError k) | Some v \<Rightarrow> Inr v)"
| "getitem _ k = Inl TypeError"

text \<open>\<^verbatim>\<open>obj.encode("utf-8")\<close>: only a string has the method.\<close>

fun encode_utf8 :: "json_value \<Rightarrow> fault + string" where
  "encode_utf8 (JString s) = Inr s"
| "encode_utf8 _ = Inl AttributeError"

subsection \<open>\<^verbatim>\<open>encrypt_secret\<close>\<close>

definition encrypt_secret ::
  "'w externals \<Rightarrow> json_value \<Rightarrow> string \<Rightarrow> 'w \<Rightarrow> (fault + string) \<times> 'w" where
  "encrypt_secret ext public_key secret_value w =
     (case encode_utf8 public_key of
        Inl e \<Rightarrow> (Inl e, w)
      | Inr key_text \<Rightarrow>
     (case PublicKey ext key_text of
        Inl e \<Rightarrow> (Inl e, w)
      | Inr public_key_bytes \<Rightarrow>
     (case SealedBox_encrypt ext w public_key_bytes secret_value of
        (Inl e, w') \<Rightarrow> (Inl e, w')
      | (Inr encrypted, w') \<Rightarrow> (Inr (b64encode ext encrypted), w'))))"

subsection \<open>\<^verbatim>\<open>set_secret\<close>\<close>

definition auth_headers :: "string \<Rightarrow> headers" where
  "auth_headers token =
     [(''Authorization'', ''Bearer '' @ token),
      (''Accept'', ''application/vnd.github.v3+json'')]"

definition public_key_url :: "string \<Rightarrow> string" where
  "public_key_url repo = ''https://api.github.com/repos/'' @ repo @ ''/actions/secrets/public-key''"

definition secret_url :: "string \<Rightarrow> string \<Rightarrow> string" where
  "secret_url repo secret_name =
     ''https://api.github.com/repos/'' @ repo @ ''/actions/secrets/'' @ secret_name"

definition set_secret ::
  "'w externals \<Rightarrow> string \<Rightarrow> string \<Rightarrow> string \<Rightarrow> string \<Rightarrow> 'w run_state
     \<Rightarrow> (fault + bool) \<times> 'w run_state" where
  "set_secret ext repo token secret_name secret_value s =
     (let hdrs = auth_headers token;
          (key_response, w1) = requests_get ext (world s) (public_key_url repo) hdrs;
          s1 = s\<lparr>world := w1,
                 calls := calls s @ [HttpGet (public_key_url repo) hdrs key_response]\<rparr>
      in case key_response of
        Inl e \<Rightarrow> (Inl e, s1)
      | Inr kr \<Rightarrow>
     (case json kr of
        Inl e \<Rightarrow> (Inl e, s1)
      | Inr key_data \<Rightarrow>
     (case getitem key_data ''key'' of
        Inl e \<Rightarrow> (Inl e, s1)
      | Inr k \<Rightarrow>
     (case encrypt_secret ext k secret_value (world s1) of
        (Inl e, w2) \<Rightarrow> (Inl e, s1\<lparr>world := w2\<rparr>)
      | (Inr enc, w2) \<Rightarrow>
     (case getitem key_data ''key_id'' of
        Inl e \<Rightarrow> (Inl e, s1\<lparr>world := w2\<rparr>)
      | Inr kid \<Rightarrow>
     (let body = \<lparr>encrypted_value = enc, key_id = kid\<rparr>;
          (put_response, w3) = requests_put ext w2 (secret_url repo secret_name) hdrs body;
          s3 = s1\<lparr>world := w3,
                  calls := calls s1 @ [HttpPut (secret_url repo secret_name) hdrs body put_response]\<rparr>
      in case put_response of
        Inl e \<Rightarrow> (Inl e, s3)
      | Inr r \<Rightarrow>
          if status_code r \<in> {201, 204} then (Inr True, print (set_line secret_name) s3)
          else (Inr False,
                print (failed_line secret_name (status_code r) (body_text r)) s3)))))))"

subsection \<open>\<^verbatim>\<open>main\<close>\<close>

text \<open>
  The loop of \<^verbatim>\<open>main\<close> over \<^verbatim>\<open>secrets.items()\<close>, with the counter as an argument.
  The dict is the list of its items in insertion order. A value is what \<^verbatim>\<open>os.getenv\<close>
  gave, a string or \<^verbatim>\<open>None\<close>, and \<^verbatim>\<open>if value:\<close> holds for a string that is not
  empty: the two other cases are the \<^verbatim>\<open>else\<close> branch. An exception raised by
  \<^verbatim>\<open>set_secret\<close> is not caught and ends the loop.
\<close>

fun publish_loop ::
  "'w externals \<Rightarrow> string \<Rightarrow> string \<Rightarrow> (string \<times> string option) list \<Rightarrow> nat \<Rightarrow> 'w run_state
     \<Rightarrow> (fault + nat) \<times> 'w run_state" where
  "publish_loop ext repo token [] success_count s = (Inr success_count, s)"
| "publish_loop ext repo token ((name, val) # rest) success_count s =
     (case val of
        Some v \<Rightarrow>
          if v \<noteq> [] then
            (case set_secret ext repo token name v s of
               (Inl e, s') \<Rightarrow> (Inl e, s')
             | (Inr ok, s') \<Rightarrow>
                 publish_loop ext repo token rest
                   (if ok then success_count + 1 else success_count) s')
          else publish_loop ext repo token rest success_count (print (skipping_line name) s)
      | None \<Rightarrow> publish_loop ext repo token rest success_count (print (skipping_line name) s))"

text \<open>The counter, the loop and the summary: the second half of \<^verbatim>\<open>main\<close>, for any dict.\<close>

definition publish_all ::
  "'w externals \<Rightarrow> string \<Rightarrow> string \<Rightarrow> (string \<times> string option) list \<Rightarrow> 'w run_state
     \<Rightarrow> (fault + unit) \<times> 'w run_state" where
  "publish_all ext repo token secrets s =
     (case publish_loop ext repo token secrets 0 s of
        (Inl e, s') \<Rightarrow> (Inl e, s')
      | (Inr success_count, s') \<Rightarrow>
          (Inr (), print (summary_line success_count (length secrets)) s'))"



text \<open>
  The status the process ends with: 0 when \<^verbatim>\<open>main\<close> returns, the argument of
  \<^verbatim>\<open>sys.exit\<close>, and 1 when any other exception reaches the top level.
\<close>

fun exit_status :: "fault + unit \<Rightarrow> int" where
  "exit_status (Inr _) = 0"
| "exit_status (Inl (SystemExit n)) = n"
| "exit_status (Inl _) = 1"

subsection \<open>Reading a run\<close>

text \<open>
  What a run has done is read from the calls it recorded. \<open>request_of\<close> forgets the
  payload and the answer of a call; \<open>requests_for\<close> lists, for a dict of secrets, one
  authenticated GET of the public key followed by one PUT of the secret for every
  secret whose value is non-empty, in the order of the dict, and nothing for the others.
\<close>

datatype http_method = GET | PUT

fun request_of :: "event \<Rightarrow> http_method \<times> string \<times> headers" where
  "request_of (HttpGet url hdrs answer) = (GET, url, hdrs)"
| "request_of (HttpPut url hdrs body answer) = (PUT, url, hdrs)"

fun requests_for ::
  "string \<Rightarrow> string \<Rightarrow> (string \<times> string option) list \<Rightarrow> (http_method \<times> string \<times> headers) list" where
  "requests_for repo token [] = []"
| "requests_for repo token ((name, val) # rest) =
     (if truthy val
      then [(GET, public_key_url repo, auth_headers token),
            (PUT, secret_url repo name, auth_headers token)]
      else []) @ requests_for repo token rest"

text \<open>A PUT that was answered with status 201 or 204.\<close>

fun put_succeeded :: "event \<Rightarrow> bool" where
  "put_succeeded (HttpPut url hdrs body (Inr r)) = (status_code r \<in> {201, 204})"
| "put_succeeded _ = False"

text \<open>
  The key identifier of every PUT is the one that the GET just before it returned:
  the calls come in pairs, except for a last GET whose secret was never submitted.
\<close>

fun key_from :: "fault + response \<Rightarrow> put_json \<Rightarrow> bool" where
  "key_from (Inr kr) body =
     (case json kr of Inr key_data \<Rightarrow> getitem key_data ''key_id'' = Inr (key_id body)
      | Inl e \<Rightarrow> False)"
| "key_from (Inl e) body = False"

fun keys_fresh :: "event list \<Rightarrow> bool" where
  "keys_fresh [] = True"
| "keys_fresh [HttpGet url hdrs answer] = True"
| "keys_fresh (HttpGet url hdrs answer # HttpPut url' hdrs' body answer' # rest) =
     (key_from answer body \<and> keys_fresh rest)"
| "keys_fresh _ = False"

text \<open>The secrets that are attempted: those with a non-empty value.\<close>

definition attempted :: "(string \<times> string option) list \<Rightarrow> nat" where
  "attempted secrets = length (filter (\<lambda>(name, val). truthy val) secrets)"

text \<open>
  What is known of the calls and lines that a run of the loop over \<open>secrets\<close> has
  added, whether it ended with a counter or with a fault: the calls follow
  \<open>requests_for\<close> as far as the run went, every key is fresh, and when the loop ended
  normally the calls are all there, the counter has grown by the number of PUTs that
  succeeded, and there is one line for each secret, the skipping line for an empty one.
\<close>

definition run_facts ::
  "string \<Rightarrow> string \<Rightarrow> (string \<times> string option) list \<Rightarrow> nat \<Rightarrow> fault + nat
     \<Rightarrow> event list \<Rightarrow> string list \<Rightarrow> bool" where
  "run_facts repo token secrets c res new_calls new_lines \<longleftrightarrow>
     prefix (map request_of new_calls) (requests_for repo token secrets) \<and>
     keys_fresh new_calls \<and>
     (\<forall>k. res = Inr k \<longrightarrow>
        map request_of new_calls = requests_for repo token secrets \<and>
        k = c + length (filter put_succeeded new_calls) \<and>
        length new_lines = length secrets \<and>
        (\<forall>i < length secrets. \<not> truthy (snd (secrets ! i)) \<longrightarrow>
           new_lines ! i = skipping_line (fst (secrets ! i))))"

subsection \<open>Conditions on the outside world\<close>




subsection \<open>A scripted world for concrete runs\<close>

text \<open>
  The world is a pair of queues: the answers that the key endpoint will give and the
  answers that the secret endpoint will give. An empty queue is a connection error.
  The cryptography is a stand-in (the sealed text is the key followed by the message):
  the concrete runs below only look at the traffic and at the output.
\<close>

definition scripted :: "(response list \<times> response list) externals" where
  "scripted =
     \<lparr>requests_get = (\<lambda>(gets, puts) url hdrs.
          case gets of [] \<Rightarrow> (Inl RequestException, ([], puts))
          | g # gets' \<Rightarrow> (Inr g, (gets', puts))),
      requests_put = (\<lambda>(gets, puts) url hdrs body.
          case puts of [] \<Rightarrow> (Inl RequestException, (gets, []))
          | p # puts' \<Rightarrow> (Inr p, (gets, puts'))),
      PublicKey = (\<lambda>k. if length k = 4 then Inr k else Inl CryptoError),
      SealedBox_encrypt = (\<lambda>w pk msg. (Inr (pk @ msg), w)),
      b64encode = (\<lambda>bytes. bytes),
      load_dotenv = (\<lambda>environ. environ)\<rparr>"

definition key_answer :: response where
  "key_answer =
     \<lparr>status_code = 200, body_text = ''{key_id: 568250167242549743, key: a2V5}'',
      json = Inr (JObject [(''key_id'', JString ''568250167242549743''),
                           (''key'', JString ''a2V5'')])\<rparr>"

definition bad_credentials :: response where
  "bad_credentials =
     \<lparr>status_code = 401, body_text = ''{message: Bad credentials}'',
      json = Inr (JObject [(''message'', JString ''Bad credentials'')])\<rparr>"

definition answer :: "int \<Rightarrow> string \<Rightarrow> response" where
  "answer status body = \<lparr>status_code = status, body_text = body, json = Inl JSONDecodeError\<rparr>"

definition start :: "response list \<Rightarrow> response list \<Rightarrow> (response list \<times> response list) run_state" where
  "start gets puts = \<lparr>world = (gets, puts), calls = [], printed = []\<rparr>"


text \<open>The dict of the scenario with one secret set, one empty and one unset.\<close>

definition scenario_secrets :: "(string \<times> string option) list" where
  "scenario_secrets = [(''A'', Some ''x''), (''B'', Some []), (''C'', None)]"



section \<open>Properties\<close>

subsection \<open>One call of \<^verbatim>\<open>set_secret\<close>\<close>

lemma print_simps [simp]:
  "world (print l s) = world s"
  "calls (print l s) = calls s"
  "printed (print l s) = printed s @ [l]"
  by (simp_all add: print_def)

text \<open>A call that raises has printed nothing and has made the GET, and at most the PUT.\<close>

lemma set_secret_Inl:
  assumes "set_secret ext repo token n v s = (Inl e, s')"
  shows "printed s' = printed s \<and>
     (\<exists>new. calls s' = calls s @ new \<and> keys_fresh new \<and> filter put_succeeded new = [] \<and>
        (map request_of new = [(GET, public_key_url repo, auth_headers token)] \<or>
         map request_of new = [(GET, public_key_url repo, auth_headers token),
                               (PUT, secret_url repo n, auth_headers token)]))"
  using assms unfolding set_secret_def Let_def
  by (auto split: prod.split_asm sum.split_asm if_split_asm)

text \<open>A call that returns has made both requests, and has printed one line.\<close>

lemma set_secret_Inr:
  assumes "set_secret ext repo token n v s = (Inr ok, s')"
  shows "\<exists>kr body r.
           calls s' = calls s @ [HttpGet (public_key_url repo) (auth_headers token) (Inr kr),
               HttpPut (secret_url repo n) (auth_headers token) body (Inr r)]
         \<and> key_from (Inr kr) body
         \<and> ok = (status_code r \<in> {201, 204})
         \<and> printed s' = printed s @
               [if ok then set_line n else failed_line n (status_code r) (body_text r)]"
  using assms unfolding set_secret_def Let_def
  by (auto split: prod.split_asm sum.split_asm if_split_asm)

subsection \<open>The loop\<close>

lemma publish_loop_skip:
  "\<not> truthy val \<Longrightarrow>
     publish_loop ext repo token ((name, val) # rest) c s =
       publish_loop ext repo token rest c (print (skipping_line name) s)"
  by (cases val) auto

lemma run_facts_skip:
  assumes "run_facts repo token secrets c res nc nl" "\<not> truthy val"
  shows "run_facts repo token ((name, val) # secrets) c res nc (skipping_line name # nl)"
  using assms unfolding run_facts_def
  by (auto simp: nth_Cons split: nat.splits)

lemma run_facts_attempt:
  assumes "run_facts repo token secrets (if put_succeeded p then c + 1 else c) res nc nl"
    and "truthy val"
    and "request_of g = (GET, public_key_url repo, auth_headers token)"
    and "request_of p = (PUT, secret_url repo name, auth_headers token)"
    and "keys_fresh [g, p]"
  shows "run_facts repo token ((name, val) # secrets) c res (g # p # nc) (l # nl)"
proof -
  from assms(3,4) obtain u h a u' h' b a' where gp: "g = HttpGet u h a" "p = HttpPut u' h' b a'"
    by (cases g; cases p) auto
  show ?thesis
    using assms unfolding run_facts_def gp
    by (auto simp: nth_Cons split: nat.splits)
qed

lemma run_facts_fault:
  assumes "keys_fresh new" "truthy val"
     "map request_of new = [(GET, public_key_url repo, auth_headers token)] \<or>
      map request_of new = [(GET, public_key_url repo, auth_headers token),
                            (PUT, secret_url repo name, auth_headers token)]"
  shows "run_facts repo token ((name, val) # secrets) c (Inl e) new nl"
  using assms unfolding run_facts_def by (auto simp: prefix_def)

text \<open>Every run of the loop, from any state, satisfies \<open>run_facts\<close>.\<close>

lemma publish_loop_run:
  "publish_loop ext repo token secrets c s = (res, s') \<Longrightarrow>
     \<exists>new_calls new_lines.
        calls s' = calls s @ new_calls \<and> printed s' = printed s @ new_lines \<and>
        run_facts repo token secrets c res new_calls new_lines"
proof (induction secrets arbitrary: c s)
  case Nil
  then have "res = Inr c" "s' = s" by simp_all
  then have "calls s' = calls s @ [] \<and> printed s' = printed s @ [] \<and>
        run_facts repo token [] c res [] []"
    by (simp add: run_facts_def)
  then show ?case by (intro exI)
next
  case (Cons a secrets)
  obtain name val where a: "a = (name, val)" by (cases a)
  show ?case
  proof (cases "truthy val")
    case False
    from Cons.prems
    have "publish_loop ext repo token secrets c (print (skipping_line name) s) = (res, s')"
      unfolding a by (simp only: publish_loop_skip[OF False])
    from Cons.IH[OF this] obtain nc nl where
      nc: "calls s' = calls (print (skipping_line name) s) @ nc"
      and nl: "printed s' = printed (print (skipping_line name) s) @ nl"
      and rs: "run_facts repo token secrets c res nc nl"
      by auto
    have "calls s' = calls s @ nc \<and> printed s' = printed s @ (skipping_line name # nl) \<and>
        run_facts repo token (a # secrets) c res nc (skipping_line name # nl)"
      unfolding a using nc nl run_facts_skip[OF rs False] by simp
    then show ?thesis by (intro exI)
  next
    case True
    then obtain v where v: "val = Some v" "v \<noteq> []" by (cases val) auto
    obtain r1 s1 where step: "set_secret ext repo token name v s = (r1, s1)"
      by (cases "set_secret ext repo token name v s")
    show ?thesis
    proof (cases r1)
      case (Inl e)
      from Cons.prems have res: "res = Inl e" "s' = s1"
        unfolding a v using v(2) step Inl by simp_all
      from set_secret_Inl[OF step[unfolded Inl]] obtain new where
        new: "printed s1 = printed s" "calls s1 = calls s @ new" and kf: "keys_fresh new"
        and rq: "map request_of new = [(GET, public_key_url repo, auth_headers token)] \<or>
         map request_of new = [(GET, public_key_url repo, auth_headers token),
                               (PUT, secret_url repo name, auth_headers token)]"
        by auto
      have "run_facts repo token ((name, val) # secrets) c (Inl e) new []"
        by (rule run_facts_fault[OF kf True rq])
      then have "calls s' = calls s @ new \<and> printed s' = printed s @ [] \<and>
        run_facts repo token (a # secrets) c res new []"
        using new res a by simp
      then show ?thesis by (intro exI)
    next
      case (Inr ok)
      from set_secret_Inr[OF step[unfolded Inr]] obtain kr body r where
        c1: "calls s1 = calls s @ [HttpGet (public_key_url repo) (auth_headers token) (Inr kr),
               HttpPut (secret_url repo name) (auth_headers token) body (Inr r)]"
        and kf: "key_from (Inr kr) body"
        and ok: "ok = (status_code r \<in> {201, 204})"
        and p1: "printed s1 = printed s @
               [if ok then set_line name else failed_line name (status_code r) (body_text r)]"
        by auto
      let ?g = "HttpGet (public_key_url repo) (auth_headers token) (Inr kr)"
      let ?p = "HttpPut (secret_url repo name) (auth_headers token) body (Inr r)"
      let ?l = "if ok then set_line name else failed_line name (status_code r) (body_text r)"
      from Cons.prems
      have "publish_loop ext repo token secrets (if ok then c + 1 else c) s1 = (res, s')"
        unfolding a v using v(2) step Inr by simp
      from Cons.IH[OF this] obtain nc nl where
        nc: "calls s' = calls s1 @ nc" and nl: "printed s' = printed s1 @ nl"
        and rs: "run_facts repo token secrets (if ok then c + 1 else c) res nc nl"
        by auto
      have "put_succeeded ?p = ok" using ok by simp
      with rs
      have rs': "run_facts repo token secrets (if put_succeeded ?p then c + 1 else c) res nc nl"
        by simp
      have "keys_fresh [?g, ?p]" using kf by simp
      from run_facts_attempt[where g = ?g and p = ?p and l = ?l, OF rs' True _ _ this]
      have "run_facts repo token ((name, val) # secrets) c res (?g # ?p # nc) (?l # nl)"
        by simp
      then have "calls s' = calls s @ (?g # ?p # nc) \<and> printed s' = printed s @ (?l # nl) \<and>
        run_facts repo token (a # secrets) c res (?g # ?p # nc) (?l # nl)"
        unfolding a using nc nl c1 p1 by simp
      then show ?thesis by (intro exI)
    qed
  qed
qed



subsection \<open>Secrets without a value\<close>



subsection \<open>The answer to a submit\<close>

text \<open>
  A call of \<^verbatim>\<open>set_secret\<close> whose PUT was answered returns whether the status is 201
  or 204, and has printed the line for that case.
\<close>

lemma set_secret_submitted:
  assumes "set_secret ext repo token name v s = (res, s')"
      and "calls s' = calls s @ [g, HttpPut url hdrs body (Inr r)]"
  shows "res = Inr (status_code r \<in> {201, 204}) \<and>
         printed s' = printed s @
           [if status_code r \<in> {201, 204} then set_line name
            else failed_line name (status_code r) (body_text r)]"
  using assms unfolding set_secret_def Let_def
  by (auto split: prod.split_asm sum.split_asm if_split_asm)

lemma failed_line_contains:
  "sublist name (failed_line name status body)"
  "sublist (str_int status) (failed_line name status body)"
  "sublist body (failed_line name status body)"
proof -
  show "sublist name (failed_line name status body)"
    unfolding sublist_def failed_line_def
    by (rule exI[of _ "cross_mark @ '' Failed to set ''"],
        rule exI[of _ "'': '' @ str_int status @ '' '' @ body"]) simp
  show "sublist (str_int status) (failed_line name status body)"
    unfolding sublist_def failed_line_def
    by (rule exI[of _ "cross_mark @ '' Failed to set '' @ name @ '': ''"],
        rule exI[of _ "'' '' @ body"]) simp
  show "sublist body (failed_line name status body)"
    unfolding sublist_def failed_line_def
    by (rule exI[of _ "cross_mark @ '' Failed to set '' @ name @ '': '' @ str_int status @ '' ''"],
        rule exI[of _ "[]"]) simp
qed

lemma publish_loop_after:
  assumes "set_secret ext repo token name v s = (Inr ok, s')" "v \<noteq> []"
  shows "publish_loop ext repo token ((name, Some v) # rest) c s =
           publish_loop ext repo token rest (if ok then c + 1 else c) s'"
  using assms by simp


text \<open>The definitions that a concrete run in the scripted world unfolds.\<close>

lemmas scripted_run =
  set_secret_def encrypt_secret_def scripted_def start_def key_answer_def answer_def
  Let_def print_def


text \<open>
  Claim C6. When the submit for a secret is answered with a status other than 201 and
  204, the line printed holds the secret's name, the status code and the response body,
  and the run goes on: the loop continues with the remaining secrets from the state that
  the failed call left, and \<^verbatim>\<open>main\<close> ends as the loop over the remaining secrets
  ends. The concrete run after the theorem is the one of the specification: secret D is
  answered 403 with body Forbidden, and secret E after it is still set.
\<close>

theorem failed_submit_reported:
  assumes "set_secret ext repo token name v s = (res, s')"
      and "calls s' = calls s @ [g, HttpPut url hdrs body (Inr r)]"
      and "status_code r \<notin> {201, 204}"
      and "v \<noteq> []"
  shows "printed s' = printed s @ [failed_line name (status_code r) (body_text r)]
       \<and> sublist name (failed_line name (status_code r) (body_text r))
       \<and> sublist (str_int (status_code r)) (failed_line name (status_code r) (body_text r))
       \<and> sublist (body_text r) (failed_line name (status_code r) (body_text r))
       \<and> publish_loop ext repo token ((name, Some v) # rest) c s =
           publish_loop ext repo token rest c s'
       \<and> publish_all ext repo token ((name, Some v) # rest) s =
           (case publish_loop ext repo token rest 0 s' of
              (Inl e, s'') \<Rightarrow> (Inl e, s'')
            | (Inr k, s'') \<Rightarrow> (Inr (), print (summary_line k (length ((name, Some v) # rest))) s''))"
proof -
  note sub = set_secret_submitted[OF assms(1,2)]
  have go: "publish_loop ext repo token ((name, Some v) # rest) c s =
              publish_loop ext repo token rest c s'" for c
    using publish_loop_after[of ext repo token name v s False s' rest c] assms(1,3,4) sub by simp
  have all: "publish_all ext repo token ((name, Some v) # rest) s =
           (case publish_loop ext repo token rest 0 s' of
              (Inl e, s'') \<Rightarrow> (Inl e, s'')
            | (Inr k, s'') \<Rightarrow> (Inr (), print (summary_line k (length ((name, Some v) # rest))) s''))"
    unfolding publish_all_def go ..
  have line: "printed s' = printed s @ [failed_line name (status_code r) (body_text r)]"
    using sub assms(3) by simp
  show ?thesis
    using line go all failed_line_contains by (intro conjI)
qed

theorem failed_submit_reported_witness:
  "publish_all scripted ''o/r'' ''t'' [(''D'', Some ''x''), (''E'', Some ''y'')]
       (start [key_answer, key_answer] [answer 403 ''Forbidden'', answer 201 []]) =
     (Inr (),
      \<lparr>world = ([], []),
       calls = [HttpGet (public_key_url ''o/r'') (auth_headers ''t'') (Inr key_answer),
                HttpPut (secret_url ''o/r'' ''D'') (auth_headers ''t'')
                  \<lparr>encrypted_value = ''a2V5x'', key_id = JString ''568250167242549743''\<rparr>
                  (Inr (answer 403 ''Forbidden'')),
                HttpGet (public_key_url ''o/r'') (auth_headers ''t'') (Inr key_answer),
                HttpPut (secret_url ''o/r'' ''E'') (auth_headers ''t'')
                  \<lparr>encrypted_value = ''a2V5y'', key_id = JString ''568250167242549743''\<rparr>
                  (Inr (answer 201 []))],
       printed = [cross_mark @ '' Failed to set D: 403 Forbidden'', set_line ''E'',
                  CHR 0x0A # ''Set 1/2 secrets'']\<rparr>)"
proof -
  let ?s = "start [key_answer, key_answer] [answer 403 ''Forbidden'', answer 201 []]"
  let ?g = "HttpGet (public_key_url ''o/r'') (auth_headers ''t'') (Inr key_answer)"
  let ?body = "\<lparr>encrypted_value = ''a2V5x'', key_id = JString ''568250167242549743''\<rparr>"
  let ?s' = "\<lparr>world = ([key_answer], [answer 201 []]),
       calls = [?g, HttpPut (secret_url ''o/r'' ''D'') (auth_headers ''t'') ?body
                  (Inr (answer 403 ''Forbidden''))],
       printed = [failed_line ''D'' 403 ''Forbidden'']\<rparr>
         :: (response list \<times> response list) run_state"
  have h1: "set_secret scripted ''o/r'' ''t'' ''D'' ''x'' ?s = (Inr False, ?s')"
    by (simp add: scripted_run)
  have h2: "calls ?s' = calls ?s @ [?g, HttpPut (secret_url ''o/r'' ''D'') (auth_headers ''t'')
              ?body (Inr (answer 403 ''Forbidden''))]"
    by (simp add: start_def)
  have h3: "status_code (answer 403 ''Forbidden'') \<notin> {201, 204}" by (simp add: answer_def)
  have h4: "''x'' \<noteq> []" by simp
  have line: "failed_line ''D'' 403 ''Forbidden'' = cross_mark @ '' Failed to set D: 403 Forbidden''"
    by (simp add: failed_line_def str_int_def str_nat.simps)
  from failed_submit_reported[OF h1 h2 h3 h4, of "[(''E'', Some ''y'')]" 0]
  have "publish_all scripted ''o/r'' ''t'' [(''D'', Some ''x''), (''E'', Some ''y'')] ?s =
           (case publish_loop scripted ''o/r'' ''t'' [(''E'', Some ''y'')] 0 ?s' of
              (Inl e, s'') \<Rightarrow> (Inl e, s'')
            | (Inr k, s'') \<Rightarrow> (Inr (), print (summary_line k (length [(''D'', Some ''x''), (''E'', Some ''y'')])) s''))"
    by simp
  then show ?thesis
    by (simp add: scripted_run line summary_line_def str_nat.simps)
qed

subsection \<open>A key response without its fields\<close>

lemma set_secret_malformed:
  assumes "requests_get ext (world s) (public_key_url repo) (auth_headers token) = (Inr kr, w1)"
      and "json kr = Inr (JObject items)"
      and "map_of items ''key'' = None \<or> map_of items ''key_id'' = None"
  shows "\<exists>e s'. set_secret ext repo token name v s = (Inl e, s')
           \<and> printed s' = printed s
           \<and> calls s' = calls s @ [HttpGet (public_key_url repo) (auth_headers token) (Inr kr)]
           \<and> (map_of items ''key'' = None \<longrightarrow> e = KeyError ''key'')
           \<and> (\<forall>k enc w2. map_of items ''key'' = Some k \<and>
                  encrypt_secret ext k v w1 = (Inr enc, w2) \<longrightarrow> e = KeyError ''key_id'')"
proof (cases "map_of items ''key''")
  case None
  then show ?thesis
    using assms(1,2) unfolding set_secret_def Let_def by simp
next
  case (Some k)
  with assms(3) have kid: "map_of items ''key_id'' = None" by simp
  obtain r2 w2 where enc: "encrypt_secret ext k v w1 = (r2, w2)"
    by (cases "encrypt_secret ext k v w1")
  show ?thesis
  proof (cases r2)
    case (Inl e)
    then show ?thesis
      using assms(1,2) Some kid enc unfolding set_secret_def Let_def by simp
  next
    case (Inr c)
    then show ?thesis
      using assms(1,2) Some kid enc unfolding set_secret_def Let_def by simp
  qed
qed

text \<open>
  Claim C7. When the key endpoint answers with a JSON object that lacks the field
  \<^verbatim>\<open>key\<close> or the field \<^verbatim>\<open>key_id\<close>, \<^verbatim>\<open>set_secret\<close> raises, and the fault ends the loop
  and the whole run at once: no failure line and no summary are printed, the remaining
  secrets are not processed and no PUT is made. The fault is the lookup failure
  \<^verbatim>\<open>KeyError('key')\<close> when \<^verbatim>\<open>key\<close> is missing, raised while the arguments of
  \<^verbatim>\<open>encrypt_secret\<close> are evaluated; when only \<^verbatim>\<open>key_id\<close> is missing and the value
  could be sealed it is \<^verbatim>\<open>KeyError('key_id')\<close>, raised while the body of the PUT is
  built; the process then ends with status 1.
\<close>

theorem malformed_key_response_aborts:
  assumes "requests_get ext (world s) (public_key_url repo) (auth_headers token) = (Inr kr, w1)"
      and "json kr = Inr (JObject items)"
      and "map_of items ''key'' = None \<or> map_of items ''key_id'' = None"
      and "v \<noteq> []"
  shows "\<exists>e s'. set_secret ext repo token name v s = (Inl e, s')
           \<and> publish_loop ext repo token ((name, Some v) # rest) c s = (Inl e, s')
           \<and> publish_all ext repo token ((name, Some v) # rest) s = (Inl e, s')
           \<and> printed s' = printed s
           \<and> calls s' = calls s @ [HttpGet (public_key_url repo) (auth_headers token) (Inr kr)]
           \<and> (map_of items ''key'' = None \<longrightarrow>
                 e = KeyError ''key'' \<and> exit_status (Inl e) = 1)
           \<and> (\<forall>k enc w2. map_of items ''key'' = Some k \<and>
                  encrypt_secret ext k v w1 = (Inr enc, w2) \<longrightarrow>
                 e = KeyError ''key_id'' \<and> exit_status (Inl e) = 1)"
proof -
  from set_secret_malformed[OF assms(1-3), of name v] obtain e s' where
    1: "set_secret ext repo token name v s = (Inl e, s')"
    and 2: "printed s' = printed s"
    and 3: "calls s' = calls s @ [HttpGet (public_key_url repo) (auth_headers token) (Inr kr)]"
    and 4: "map_of items ''key'' = None \<longrightarrow> e = KeyError ''key''"
    and 5: "\<forall>k enc w2. map_of items ''key'' = Some k \<and>
                  encrypt_secret ext k v w1 = (Inr enc, w2) \<longrightarrow> e = KeyError ''key_id''"
    by auto
  have loop: "publish_loop ext repo token ((name, Some v) # rest) c s = (Inl e, s')" for c
    using 1 assms(4) by simp
  have all: "publish_all ext repo token ((name, Some v) # rest) s = (Inl e, s')"
    unfolding publish_all_def loop by simp
  have e4: "map_of items ''key'' = None \<longrightarrow> e = KeyError ''key'' \<and> exit_status (Inl e) = 1"
    using 4 by auto
  have e5: "\<forall>k enc w2. map_of items ''key'' = Some k \<and>
                  encrypt_secret ext k v w1 = (Inr enc, w2) \<longrightarrow>
                 e = KeyError ''key_id'' \<and> exit_status (Inl e) = 1"
    using 5 by auto
  have "set_secret ext repo token name v s = (Inl e, s')
           \<and> publish_loop ext repo token ((name, Some v) # rest) c s = (Inl e, s')
           \<and> publish_all ext repo token ((name, Some v) # rest) s = (Inl e, s')
           \<and> printed s' = printed s
           \<and> calls s' = calls s @ [HttpGet (public_key_url repo) (auth_headers token) (Inr kr)]
           \<and> (map_of items ''key'' = None \<longrightarrow>
                 e = KeyError ''key'' \<and> exit_status (Inl e) = 1)
           \<and> (\<forall>k enc w2. map_of items ''key'' = Some k \<and>
                  encrypt_secret ext k v w1 = (Inr enc, w2) \<longrightarrow>
                 e = KeyError ''key_id'' \<and> exit_status (Inl e) = 1)"
    using 1 loop all 2 3 e4 e5 by (intro conjI)
  then show ?thesis by (intro exI)
qed

theorem malformed_key_response_aborts_witness:
  "publish_all scripted ''o/r'' ''t'' [(''A'', Some ''x''), (''B'', None)]
       (start [bad_credentials] [answer 201 []]) =
     (Inl (KeyError ''key''),
      \<lparr>world = ([], [answer 201 []]),
       calls = [HttpGet (public_key_url ''o/r'') (auth_headers ''t'') (Inr bad_credentials)],
       printed = []\<rparr>)"
proof -
  let ?s = "start [bad_credentials] [answer 201 []]"
  let ?items = "[(''message'', JString ''Bad credentials'')]"
  have h1: "requests_get scripted (world ?s) (public_key_url ''o/r'') (auth_headers ''t'') =
              (Inr bad_credentials, ([], [answer 201 []]))"
    by (simp add: scripted_def start_def)
  have h2: "json bad_credentials = Inr (JObject ?items)"
    by (simp add: bad_credentials_def)
  have h3: "map_of ?items ''key'' = None \<or> map_of ?items ''key_id'' = None" by simp
  have h4: "''x'' \<noteq> []" by simp
  from malformed_key_response_aborts[OF h1 h2 h3 h4, of "''A''" "[(''B'', None)]" 0]
  obtain e s' where
    "publish_all scripted ''o/r'' ''t'' [(''A'', Some ''x''), (''B'', None)] ?s = (Inl e, s')"
    "set_secret scripted ''o/r'' ''t'' ''A'' ''x'' ?s = (Inl e, s')"
    by auto
  then show ?thesis
    by (simp add: scripted_run bad_credentials_def)
qed

subsection \<open>One key fetch for each submitted secret\<close>


lemma puts_of_requests_for:
  "length (filter (\<lambda>q. fst q = PUT) (requests_for repo token secrets)) = attempted secrets"
  by (induction secrets) (auto simp: attempted_def)




subsection \<open>The summary\<close>

lemma put_succeeded_is_put: "put_succeeded ev \<Longrightarrow> fst (request_of ev) = PUT"
  by (cases ev) auto

lemma succeeded_le_puts:
  "length (filter put_succeeded evs) \<le> length (filter (\<lambda>q. fst q = PUT) (map request_of evs))"
proof (induction evs)
  case Nil
  then show ?case by simp
next
  case (Cons ev evs)
  then show ?case using put_succeeded_is_put[of ev] by auto
qed

lemma attempted_le_length: "attempted secrets \<le> length secrets"
  by (simp add: attempted_def)

text \<open>
  Claim C3, amended. After all secrets are processed the last line printed is the
  summary, and it counts the successes (the PUTs answered with 201 or 204) out of all
  secrets of the dict, the skipped ones included: the second number is
  \<^verbatim>\<open>len(secrets)\<close>, not the number of secrets attempted. The successes are at most the
  secrets attempted, which are at most all secrets.
\<close>

theorem summary_counts_all_secrets:
  assumes "publish_all ext repo token secrets s = (Inr u, s')"
  shows "\<exists>k new_calls.
           calls s' = calls s @ new_calls
         \<and> k = length (filter put_succeeded new_calls)
         \<and> k \<le> attempted secrets \<and> attempted secrets \<le> length secrets
         \<and> printed s' \<noteq> []
         \<and> last (printed s') = summary_line k (length secrets)"
proof -
  obtain r1 s1 where loop: "publish_loop ext repo token secrets 0 s = (r1, s1)"
    by (cases "publish_loop ext repo token secrets 0 s")
  with assms obtain k where k: "r1 = Inr k" and s': "s' = print (summary_line k (length secrets)) s1"
    unfolding publish_all_def by (cases r1) auto
  from publish_loop_run[OF loop] obtain nc nl where
    nc: "calls s1 = calls s @ nc" and rf: "run_facts repo token secrets 0 r1 nc nl"
    by auto
  from rf k have rq: "map request_of nc = requests_for repo token secrets"
    and kk: "k = length (filter put_succeeded nc)"
    unfolding run_facts_def by simp_all
  have "length (filter put_succeeded nc) \<le> attempted secrets"
    using succeeded_le_puts[of nc] puts_of_requests_for[of repo token secrets] rq by simp
  with kk nc s' attempted_le_length[of secrets]
  have "calls s' = calls s @ nc
         \<and> k = length (filter put_succeeded nc)
         \<and> k \<le> attempted secrets \<and> attempted secrets \<le> length secrets
         \<and> printed s' \<noteq> []
         \<and> last (printed s') = summary_line k (length secrets)"
    by simp
  then show ?thesis by (intro exI)
qed

theorem summary_counts_all_secrets_witness:
  "last (printed (snd (publish_all scripted ''o/r'' ''t'' [(''A'', Some ''x''), (''B'', None)]
      (start [key_answer] [answer 500 ''oops''])))) = CHR 0x0A # ''Set 0/2 secrets''"
proof -
  let ?s = "start [key_answer] [answer 500 ''oops'']"
  let ?run = "publish_all scripted ''o/r'' ''t'' [(''A'', Some ''x''), (''B'', None)] ?s"
  have h: "?run = (Inr (), snd ?run)"
    by (simp add: publish_all_def scripted_run)
  from summary_counts_all_secrets[OF h] obtain k where
    "last (printed (snd ?run)) = summary_line k (length [(''A'', Some ''x''), (''B'', None :: string option)])"
    by auto
  then show ?thesis
    by (simp add: publish_all_def scripted_run summary_line_def str_nat.simps)
qed

text \<open>
  Claim C3 as stated fails: with A set, B empty and C unset, and the one submit answered
  201, one secret is attempted and one succeeds, and the summary reads 1/3, not 1/1.
\<close>

theorem summary_out_of_attempted_counterexample:
  "last (printed (snd (publish_all scripted ''o/r'' ''t'' scenario_secrets
      (start [key_answer] [answer 201 []])))) = CHR 0x0A # ''Set 1/3 secrets''
   \<and> attempted scenario_secrets = 1
   \<and> last (printed (snd (publish_all scripted ''o/r'' ''t'' scenario_secrets
      (start [key_answer] [answer 201 []])))) \<noteq> summary_line 1 (attempted scenario_secrets)"
  by (simp add: publish_all_def scripted_run summary_line_def str_nat.simps attempted_def
        scenario_secrets_def)

subsection \<open>Runs in a world that never raises\<close>







subsection \<open>The exit status\<close>






end
